theory Spec2Isabelle
  imports Main
begin

section \<open>JavaScript values\<close>

text \<open>
  The pages and the listener build plain object literals of strings and numbers. An object
  is the list of its properties in insertion order; a property that is not in the list reads
  as \<open>undefined\<close>. Numbers are the integral ones (all the sources use), strings are ASCII.
\<close>

datatype js = JUndefined | JString string | JNumber int | JObject "(string \<times> js) list"

datatype error = RangeError | ERR_HTTP_HEADERS_SENT

definition js_get :: "js \<Rightarrow> string \<Rightarrow> js" where
  "js_get v k = (case v of
       JObject ps \<Rightarrow> (case map_of ps k of Some x \<Rightarrow> x | None \<Rightarrow> JUndefined)
     | _ \<Rightarrow> JUndefined)"

definition js_keys :: "js \<Rightarrow> string list" where
  "js_keys v = (case v of JObject ps \<Rightarrow> map fst ps | _ \<Rightarrow> [])"

text \<open>Truthiness, and \<open>a || b\<close>: the left operand when it is truthy, else the right one.\<close>

fun truthy :: "js \<Rightarrow> bool" where
  "truthy JUndefined = False"
| "truthy (JString s) = (s \<noteq> [])"
| "truthy (JNumber n) = (n \<noteq> 0)"
| "truthy (JObject ps) = True"

definition js_or :: "js \<Rightarrow> js \<Rightarrow> js" where
  "js_or a b = (if truthy a then a else b)"

text \<open>\<open>process.env\<close>: every variable that is set holds a string, the others read \<open>undefined\<close>.\<close>

type_synonym process_env = "string \<rightharpoonup> string"

definition env_get :: "process_env \<Rightarrow> string \<Rightarrow> js" where
  "env_get env k = (case env k of Some s \<Rightarrow> JString s | None \<Rightarrow> JUndefined)"

section \<open>Decimal digits\<close>

definition digit_char :: "nat \<Rightarrow> char" where
  "digit_char d = char_of (48 + d)"

definition is_digit :: "char \<Rightarrow> bool" where
  "is_digit c = (48 \<le> (of_char c :: nat) \<and> (of_char c :: nat) \<le> 57)"

definition digit_val :: "char \<Rightarrow> nat" where
  "digit_val c = of_char c - 48"

text \<open>\<open>pad n k\<close>: the last \<open>n\<close> decimal digits of \<open>k\<close>, zero-padded on the left.\<close>

fun pad :: "nat \<Rightarrow> nat \<Rightarrow> string" where
  "pad 0 k = []"
| "pad (Suc n) k = pad n (k div 10) @ [digit_char (k mod 10)]"

fun decimal :: "nat \<Rightarrow> string" where
  "decimal k = (if k < 10 then [digit_char k] else decimal (k div 10) @ [digit_char (k mod 10)])"

definition Number_toString :: "int \<Rightarrow> string" where
  "Number_toString n = (if n < 0 then CHR ''-'' # decimal (nat (- n)) else decimal (nat n))"

section \<open>JSON.stringify\<close>

definition hex_char :: "nat \<Rightarrow> char" where
  "hex_char d = (if d < 10 then char_of (48 + d) else char_of (87 + d))"

definition QuoteJSONChar :: "char \<Rightarrow> string" where
  "QuoteJSONChar c =
     (if c = CHR 0x08 then [CHR 0x5C, CHR ''b'']
      else if c = CHR 0x09 then [CHR 0x5C, CHR ''t'']
      else if c = CHR 0x0A then [CHR 0x5C, CHR ''n'']
      else if c = CHR 0x0C then [CHR 0x5C, CHR ''f'']
      else if c = CHR 0x0D then [CHR 0x5C, CHR ''r'']
      else if c = CHR 0x22 then [CHR 0x5C, CHR 0x22]
      else if c = CHR 0x5C then [CHR 0x5C, CHR 0x5C]
      else if (of_char c :: nat) < 32
        then [CHR 0x5C, CHR ''u'', CHR ''0'', CHR ''0'',
              hex_char ((of_char c :: nat) div 16), hex_char ((of_char c :: nat) mod 16)]
      else [c])"

definition QuoteJSONString :: "string \<Rightarrow> string" where
  "QuoteJSONString s = [CHR 0x22] @ concat (map QuoteJSONChar s) @ [CHR 0x22]"

fun join :: "string \<Rightarrow> string list \<Rightarrow> string" where
  "join sep [] = []"
| "join sep [x] = x"
| "join sep (x # y # ys) = x @ sep @ join sep (y # ys)"

text \<open>
  \<open>JSON.stringify(value)\<close> with no replacer and no indentation. \<open>None\<close> is the result
  \<open>undefined\<close>; a property whose value serialises to \<open>undefined\<close> is left out of its object.
\<close>

fun JSON_stringify :: "js \<Rightarrow> string option"
  and stringify_members :: "(string \<times> js) list \<Rightarrow> string list" where
  "JSON_stringify JUndefined = None"
| "JSON_stringify (JString s) = Some (QuoteJSONString s)"
| "JSON_stringify (JNumber n) = Some (Number_toString n)"
| "JSON_stringify (JObject ps) = Some (''{'' @ join '','' (stringify_members ps) @ ''}'')"
| "stringify_members [] = []"
| "stringify_members ((k, v) # ps) =
     (case JSON_stringify v of
        None \<Rightarrow> stringify_members ps
      | Some s \<Rightarrow> (QuoteJSONString k @ '':'' @ s) # stringify_members ps)"

section \<open>The standalone listener (hello.js)\<close>

record request =
  req_method :: string
  req_url :: string
  req_headers :: "(string \<times> string) list"
  req_body :: string

text \<open>
  The response object, as far as the listener touches it: the status, the headers set on it
  (not those Node adds on the wire), whether the head has been written, whether this response
  may carry a body, the body data sent, and whether it is finished.
\<close>

record response =
  statusCode :: nat
  headers :: "(string \<times> string) list"
  headersSent :: bool
  hasBody :: bool
  body :: string
  finished :: bool

text \<open>
  \<open>new ServerResponse(req)\<close>, the response object Node makes for a request: status 200,
  nothing set or sent yet, and no body when the request's method is \<open>HEAD\<close>.
\<close>

definition ServerResponse :: "request \<Rightarrow> response" where
  "ServerResponse req =
     \<lparr>statusCode = 200, headers = [], headersSent = False,
      hasBody = (req_method req \<noteq> ''HEAD''), body = [], finished = False\<rparr>"

text \<open>
  \<open>res.writeHead(status, headers)\<close> throws once the head has been written; otherwise it fixes
  the status and puts the given headers over those already set. A response with status 204,
  304 or 1xx has no body.
\<close>

definition writeHead :: "nat \<Rightarrow> (string \<times> string) list \<Rightarrow> response \<Rightarrow> error + response" where
  "writeHead code hs res =
     (if headersSent res then Inl ERR_HTTP_HEADERS_SENT
      else Inr (res\<lparr>statusCode := code,
                    headers := filter (\<lambda>(k, v). k \<notin> fst ` set hs) (headers res) @ hs,
                    headersSent := True,
                    hasBody := (hasBody res
                                \<and> code \<noteq> 204 \<and> code \<noteq> 304 \<and> \<not> (100 \<le> code \<and> code \<le> 199))\<rparr>))"

text \<open>
  \<open>res.end(data)\<close>: writes the last chunk and finishes the response; a no-op once finished.
  Node drops the data when the response may not carry a body.
\<close>

definition res_end :: "string \<Rightarrow> response \<Rightarrow> response" where
  "res_end data res =
     (if finished res then res
      else res\<lparr>headersSent := True,
               body := (if hasBody res then body res @ data else body res),
               finished := True\<rparr>)"

text \<open>The function passed to \<open>http.createServer\<close>. It never reads \<open>req\<close>.\<close>

definition requestListener :: "request \<Rightarrow> response \<Rightarrow> error + response" where
  "requestListener req res =
     (case writeHead 200 [(''Content-Type'', ''application/json'')] res of
        Inl e \<Rightarrow> Inl e
      | Inr res1 \<Rightarrow>
          (case JSON_stringify (JObject [(''message'', JString ''Hello World!'')]) of
             None \<Rightarrow> Inr (res_end [] res1)
           | Some data \<Rightarrow> Inr (res_end data res1)))"

record server =
  listener :: "request \<Rightarrow> response \<Rightarrow> error + response"
  port :: "nat option"

definition createServer :: "(request \<Rightarrow> response \<Rightarrow> error + response) \<Rightarrow> server" where
  "createServer f = \<lparr>listener = f, port = None\<rparr>"

definition listen :: "nat \<Rightarrow> server \<Rightarrow> server" where
  "listen p srv = srv\<lparr>port := Some p\<rparr>"

definition hello :: server where
  "hello = listen 8080 (createServer requestListener)"

text \<open>
  The \<open>request\<close> event: for a request that Node hands to the listener, the listener runs on
  that request and the response object made for it. Requests Node answers or drops by itself
  (a malformed request, a \<open>CONNECT\<close>, a failed \<open>Expect\<close>) never reach the listener.
\<close>

definition serve :: "server \<Rightarrow> request \<Rightarrow> error + response" where
  "serve srv req = listener srv req (ServerResponse req)"

section \<open>Dates (ECMAScript time values)\<close>

text \<open>
  A Date holds a time value, the milliseconds since 1970-01-01T00:00:00Z, or is invalid
  (\<open>None\<close>). The day and calendar functions below are the ones ECMAScript defines, under its
  names; \<open>YearFromTime\<close>, specified there as the largest year that starts at or before the
  instant, is computed from an estimate that is off by at most one.
\<close>

definition msPerDay :: int where
  "msPerDay = 86400000"

definition Day :: "int \<Rightarrow> int" where
  "Day t = t div msPerDay"

definition TimeWithinDay :: "int \<Rightarrow> int" where
  "TimeWithinDay t = t mod msPerDay"

definition DaysInYear :: "int \<Rightarrow> int" where
  "DaysInYear y =
     (if y mod 4 \<noteq> 0 then 365
      else if y mod 100 \<noteq> 0 then 366
      else if y mod 400 \<noteq> 0 then 365
      else 366)"

definition DayFromYear :: "int \<Rightarrow> int" where
  "DayFromYear y =
     365 * (y - 1970) + (y - 1969) div 4 - (y - 1901) div 100 + (y - 1601) div 400"

definition TimeFromYear :: "int \<Rightarrow> int" where
  "TimeFromYear y = msPerDay * DayFromYear y"

definition YearFromTime :: "int \<Rightarrow> int" where
  "YearFromTime t =
     (let y = 1970 + (400 * Day t) div 146097
      in if t < TimeFromYear y then y - 1
         else if TimeFromYear (y + 1) \<le> t then y + 1
         else y)"

definition InLeapYear :: "int \<Rightarrow> int" where
  "InLeapYear t = (if DaysInYear (YearFromTime t) = 366 then 1 else 0)"

definition DayWithinYear :: "int \<Rightarrow> int" where
  "DayWithinYear t = Day t - DayFromYear (YearFromTime t)"

definition MonthFromTime :: "int \<Rightarrow> int" where
  "MonthFromTime t =
     (let d = DayWithinYear t; l = InLeapYear t
      in if d < 31 then 0
         else if d < 59 + l then 1
         else if d < 90 + l then 2
         else if d < 120 + l then 3
         else if d < 151 + l then 4
         else if d < 181 + l then 5
         else if d < 212 + l then 6
         else if d < 243 + l then 7
         else if d < 273 + l then 8
         else if d < 304 + l then 9
         else if d < 334 + l then 10
         else 11)"

definition DateFromTime :: "int \<Rightarrow> int" where
  "DateFromTime t =
     (let d = DayWithinYear t; l = InLeapYear t; m = MonthFromTime t
      in if m = 0 then d + 1
         else if m = 1 then d - 30
         else if m = 2 then d - 58 - l
         else if m = 3 then d - 89 - l
         else if m = 4 then d - 119 - l
         else if m = 5 then d - 150 - l
         else if m = 6 then d - 180 - l
         else if m = 7 then d - 211 - l
         else if m = 8 then d - 242 - l
         else if m = 9 then d - 272 - l
         else if m = 10 then d - 303 - l
         else d - 333 - l)"

definition HourFromTime :: "int \<Rightarrow> int" where
  "HourFromTime t = (t div 3600000) mod 24"

definition MinFromTime :: "int \<Rightarrow> int" where
  "MinFromTime t = (t div 60000) mod 60"

definition SecFromTime :: "int \<Rightarrow> int" where
  "SecFromTime t = (t div 1000) mod 60"

definition msFromTime :: "int \<Rightarrow> int" where
  "msFromTime t = t mod 1000"

text \<open>A time value lies within 100 000 000 days of the epoch; \<open>TimeClip\<close> rejects the rest.\<close>

definition is_time_value :: "int \<Rightarrow> bool" where
  "is_time_value t = (\<bar>t\<bar> \<le> 8640000000000000)"

definition TimeClip :: "int \<Rightarrow> int option" where
  "TimeClip t = (if \<bar>t\<bar> > 8640000000000000 then None else Some t)"

text \<open>
  \<open>new Date()\<close> holds the reading of the system clock, a time value; \<open>new Date(v)\<close> clips
  \<open>v\<close> and is invalid when \<open>v\<close> is out of range.
\<close>

definition Date_current :: "int \<Rightarrow> int option" where
  "Date_current now = Some now"

definition Date_of_value :: "int \<Rightarrow> int option" where
  "Date_of_value v = TimeClip v"

text \<open>
  \<open>toISOString\<close>: \<open>YYYY-MM-DDTHH:mm:ss.sssZ\<close>, the year with four digits from 0 to 9999 and as
  a sign and six digits otherwise; \<open>RangeError\<close> on an invalid Date.
\<close>

definition ISOYear :: "int \<Rightarrow> string" where
  "ISOYear y =
     (if 0 \<le> y \<and> y \<le> 9999 then pad 4 (nat y)
      else (if y < 0 then ''-'' else ''+'') @ pad 6 (nat \<bar>y\<bar>))"

definition ISOFormat :: "int \<Rightarrow> string" where
  "ISOFormat t =
     ISOYear (YearFromTime t) @ ''-'' @ pad 2 (nat (MonthFromTime t + 1)) @ ''-''
       @ pad 2 (nat (DateFromTime t)) @ ''T'' @ pad 2 (nat (HourFromTime t)) @ '':''
       @ pad 2 (nat (MinFromTime t)) @ '':'' @ pad 2 (nat (SecFromTime t)) @ ''.''
       @ pad 3 (nat (msFromTime t)) @ ''Z''"

definition toISOString :: "int option \<Rightarrow> error + string" where
  "toISOString d = (case d of None \<Rightarrow> Inl RangeError | Some t \<Rightarrow> Inr (ISOFormat t))"

text \<open>
  \<open>Date.parse\<close> on the format \<open>toISOString\<close> writes (the complete form of the ECMAScript
  date-time format, in UTC); \<open>None\<close> is \<open>NaN\<close>. It is how a timestamp string is read back
  as the instant it denotes.
\<close>

definition read_digits :: "string \<Rightarrow> nat option" where
  "read_digits s =
     (if s \<noteq> [] \<and> list_all is_digit s
      then Some (foldl (\<lambda>a c. 10 * a + digit_val c) 0 s) else None)"

definition DaysBeforeMonth :: "int \<Rightarrow> int \<Rightarrow> int" where
  "DaysBeforeMonth l m =
     (if m = 0 then 0
      else if m = 1 then 31
      else if m = 2 then 59 + l
      else if m = 3 then 90 + l
      else if m = 4 then 120 + l
      else if m = 5 then 151 + l
      else if m = 6 then 181 + l
      else if m = 7 then 212 + l
      else if m = 8 then 243 + l
      else if m = 9 then 273 + l
      else if m = 10 then 304 + l
      else 334 + l)"

definition MakeTime :: "int \<Rightarrow> int \<Rightarrow> int \<Rightarrow> int \<Rightarrow> int" where
  "MakeTime h m s ms = h * 3600000 + m * 60000 + s * 1000 + ms"

definition MakeDay :: "int \<Rightarrow> int \<Rightarrow> int \<Rightarrow> int" where
  "MakeDay year month date =
     (let ym = year + month div 12; mn = month mod 12
      in DayFromYear ym + DaysBeforeMonth (if DaysInYear ym = 366 then 1 else 0) mn + date - 1)"

definition MakeDate :: "int \<Rightarrow> int \<Rightarrow> int" where
  "MakeDate day time = day * msPerDay + time"

definition parse_fields :: "int \<Rightarrow> string \<Rightarrow> int option" where
  "parse_fields year r =
     (if length r = 20 \<and> r ! 0 = CHR ''-'' \<and> r ! 3 = CHR ''-'' \<and> r ! 6 = CHR ''T''
         \<and> r ! 9 = CHR '':'' \<and> r ! 12 = CHR '':'' \<and> r ! 15 = CHR ''.'' \<and> r ! 19 = CHR ''Z''
      then
        (case (read_digits (take 2 (drop 1 r)), read_digits (take 2 (drop 4 r)),
               read_digits (take 2 (drop 7 r)), read_digits (take 2 (drop 10 r)),
               read_digits (take 2 (drop 13 r)), read_digits (take 3 (drop 16 r))) of
           (Some mo, Some da, Some h, Some mi, Some se, Some ms) \<Rightarrow>
             if 1 \<le> mo \<and> mo \<le> 12 \<and> 1 \<le> da \<and> da \<le> 31 \<and> mi \<le> 59 \<and> se \<le> 59
                \<and> (h \<le> 23 \<or> h = 24 \<and> mi = 0 \<and> se = 0 \<and> ms = 0)
             then TimeClip (MakeDate (MakeDay year (int mo - 1) (int da))
                                     (MakeTime (int h) (int mi) (int se) (int ms)))
             else None
         | _ \<Rightarrow> None)
      else None)"

definition Date_parse :: "string \<Rightarrow> int option" where
  "Date_parse s =
     (case s of
        [] \<Rightarrow> None
      | c # cs \<Rightarrow>
          if c = CHR ''+'' \<or> c = CHR ''-'' then
            (case read_digits (take 6 cs) of
               None \<Rightarrow> None
             | Some y \<Rightarrow>
                 if length cs < 6 \<or> (c = CHR ''-'' \<and> y = 0) then None
                 else parse_fields (if c = CHR ''-'' then - int y else int y) (drop 6 cs))
          else
            (case read_digits (take 4 s) of
               None \<Rightarrow> None
             | Some y \<Rightarrow> if length s < 4 then None else parse_fields (int y) (drop 4 s)))"

text \<open>The instant a timestamp property denotes, and the order of two timestamps as instants.\<close>

definition timestamp :: "js \<Rightarrow> string \<Rightarrow> int option" where
  "timestamp v k = (case js_get v k of JString s \<Rightarrow> Date_parse s | _ \<Rightarrow> None)"

definition instant_le :: "int option \<Rightarrow> int option \<Rightarrow> bool" where
  "instant_le a b = (case (a, b) of (Some x, Some y) \<Rightarrow> x \<le> y | _ \<Rightarrow> False)"

definition instant_less :: "int option \<Rightarrow> int option \<Rightarrow> bool" where
  "instant_less a b = (case (a, b) of (Some x, Some y) \<Rightarrow> x < y | _ \<Rightarrow> False)"

section \<open>The pages' generation functions\<close>

text \<open>
  Both functions are \<open>async\<close>: \<open>Inr\<close> is the value the promise resolves to, \<open>Inl\<close> the
  exception it rejects with. Their inputs are the readings of the system clock, in the order
  the body takes them, and \<open>process.env\<close>.
\<close>

definition fallback :: string where
  "fallback = ''Not set (check your platform configuration)''"

text \<open>\<open>getServerSideProps\<close> of the server-rendered page; \<open>now\<close> is what \<open>new Date()\<close> reads.\<close>

definition getServerSideProps :: "int \<Rightarrow> process_env \<Rightarrow> error + js" where
  "getServerSideProps now env =
     (case toISOString (Date_current now) of
        Inl e \<Rightarrow> Inl e
      | Inr currentTime \<Rightarrow>
          (let hostname = js_or (env_get env ''HOSTNAME'') (JString fallback)
           in Inr (JObject
                [(''props'', JObject
                    [(''serverTime'', JString currentTime),
                     (''hostname'', hostname)])])))"

text \<open>
  \<open>getStaticProps\<close> of the regenerated page; \<open>now\<close> is what \<open>new Date()\<close> reads and
  \<open>now'\<close> what the later \<open>Date.now()\<close> reads.
\<close>

definition getStaticProps :: "int \<Rightarrow> int \<Rightarrow> process_env \<Rightarrow> error + js" where
  "getStaticProps now now' env =
     (case toISOString (Date_current now) of
        Inl e \<Rightarrow> Inl e
      | Inr renderTime \<Rightarrow>
          (let hostname = js_or (env_get env ''HOSTNAME'') (JString fallback)
           in case toISOString (Date_of_value (now' + 10000)) of
                Inl e \<Rightarrow> Inl e
              | Inr nextRevalidation \<Rightarrow>
                  Inr (JObject
                    [(''props'', JObject
                        [(''renderTime'', JString renderTime),
                         (''hostname'', hostname),
                         (''nextRevalidation'', JString nextRevalidation)]),
                     (''revalidate'', JNumber 10)])))"

text \<open>
  A sequence of requests to the server-rendered page: the runtime calls \<open>getServerSideProps\<close>
  once for each, with the clock reading and the environment of that moment. \<open>serverTimeOf\<close> is
  the instant the \<open>serverTime\<close> of a result denotes.
\<close>

definition on_demand_run :: "(int \<times> process_env) list \<Rightarrow> (error + js) list" where
  "on_demand_run reqs = map (\<lambda>(now, env). getServerSideProps now env) reqs"

definition serverTimeOf :: "error + js \<Rightarrow> int option" where
  "serverTimeOf res =
     (case res of Inr r \<Rightarrow> timestamp (js_get r ''props'') ''serverTime'' | Inl e \<Rightarrow> None)"

section \<open>The time-windowed regenerating cache\<close>

text \<open>
  Modelled from the spec: the cache that serves the regenerated page is the rendering
  runtime's, not a source file of the repository. This is the single slot of section 4.2:
  the snapshot that is served, the \<open>revalidate\<close> value its generation returned, the moment it
  was produced, whether a regeneration is in flight, and a count of the regenerations started.
\<close>

record cache =
  snapshot :: js
  revalidate :: js
  producedAt :: int
  inFlight :: bool
  regenerations :: nat

text \<open>
  Modelled from the spec: the revalidation window in milliseconds, absent when the
  generation function returned no \<open>revalidate\<close>.
\<close>

definition window_ms :: "cache \<Rightarrow> int option" where
  "window_ms c = (case revalidate c of JNumber n \<Rightarrow> Some (1000 * n) | _ \<Rightarrow> None)"

text \<open>
  Modelled from the spec: the slot is Stale at time \<open>t\<close> once the window has elapsed since
  the snapshot was produced, Fresh before.
\<close>

definition stale :: "cache \<Rightarrow> int \<Rightarrow> bool" where
  "stale c t = (case window_ms c of Some w \<Rightarrow> w \<le> t - producedAt c | None \<Rightarrow> False)"

text \<open>
  Modelled from the spec: what happens to the slot. A request arrives at a time; a
  regeneration that is in flight completes at a time, its run of \<open>getStaticProps\<close> having read
  the clock twice.
\<close>

datatype event = Request int | Completion int int int

text \<open>
  Modelled from the spec: the first generation, at build time. The run of
  \<open>getStaticProps\<close> reads \<open>now\<close> and \<open>now'\<close> and its snapshot is in place at \<open>t\<close>.
\<close>

definition build :: "process_env \<Rightarrow> int \<Rightarrow> int \<Rightarrow> int \<Rightarrow> error + cache" where
  "build env now now' t =
     (case getStaticProps now now' env of
        Inl e \<Rightarrow> Inl e
      | Inr r \<Rightarrow> Inr \<lparr>snapshot = js_get r ''props'', revalidate = js_get r ''revalidate'',
                       producedAt = t, inFlight = False, regenerations = 0\<rparr>)"

text \<open>
  Modelled from the spec: one event. A request is answered at once with the cached
  snapshot; when the slot is Stale and no regeneration is in flight it also starts one. A
  completion replaces the snapshot and restarts the window from that moment; a regeneration
  that failed leaves the snapshot in place, to be retried on the next qualifying request.
\<close>

fun step :: "process_env \<Rightarrow> cache \<Rightarrow> event \<Rightarrow> cache \<times> js option" where
  "step env c (Request t) =
     (if stale c t \<and> \<not> inFlight c
      then (c\<lparr>inFlight := True, regenerations := Suc (regenerations c)\<rparr>, Some (snapshot c))
      else (c, Some (snapshot c)))"
| "step env c (Completion now now' t) =
     (if inFlight c
      then (case getStaticProps now now' env of
              Inl e \<Rightarrow> (c\<lparr>inFlight := False\<rparr>, None)
            | Inr r \<Rightarrow> (c\<lparr>snapshot := js_get r ''props'', revalidate := js_get r ''revalidate'',
                           producedAt := t, inFlight := False\<rparr>, None))
      else (c, None))"

text \<open>
  Modelled from the spec: a sequence of events, in the order the runtime handles them,
  with the responses to its requests.
\<close>

fun run :: "process_env \<Rightarrow> cache \<Rightarrow> event list \<Rightarrow> cache \<times> js list" where
  "run env c [] = (c, [])"
| "run env c (e # es) =
     (case step env c e of
        (c', out) \<Rightarrow>
          (case run env c' es of
             (c'', outs) \<Rightarrow> (c'', (case out of Some v \<Rightarrow> [v] | None \<Rightarrow> []) @ outs)))"

section \<open>Decimal digits read back\<close>

lemma digit_val_digit_char: "d < 10 \<Longrightarrow> digit_val (digit_char d) = d"
  by (simp add: digit_val_def digit_char_def)

lemma is_digit_digit_char: "d < 10 \<Longrightarrow> is_digit (digit_char d)"
  by (simp add: is_digit_def digit_char_def)

lemma length_pad: "length (pad n k) = n"
  by (induction n arbitrary: k) simp_all

lemma all_digits_pad: "list_all is_digit (pad n k)"
  by (induction n arbitrary: k) (simp_all add: is_digit_digit_char)

lemma value_pad: "foldl (\<lambda>a c. 10 * a + digit_val c) 0 (pad n k) = k mod 10 ^ n"
proof (induction n arbitrary: k)
  case 0
  show ?case by simp
next
  case (Suc n)
  have "k mod (10 * 10 ^ n) = 10 * (k div 10 mod 10 ^ n) + k mod 10"
    by (rule mod_mult2_eq)
  then show ?case
    by (simp add: Suc.IH digit_val_digit_char)
qed

lemma read_digits_pad: "0 < n \<Longrightarrow> k < 10 ^ n \<Longrightarrow> read_digits (pad n k) = Some k"
proof -
  assume n: "0 < n" and k: "k < 10 ^ n"
  from n have "pad n k \<noteq> []"
    using length_pad [of n k] by auto
  then show ?thesis
    by (simp add: read_digits_def all_digits_pad value_pad k)
qed

section \<open>The calendar\<close>

lemma div_succ:
  fixes x n :: int
  assumes "0 < n"
  shows "(x + 1) div n = x div n + (if (x + 1) mod n = 0 then 1 else 0)"
proof -
  have d: "n * (x div n) + x mod n = x" by (rule mult_div_mod_eq)
  have r: "0 \<le> x mod n" "x mod n < n" using assms by simp_all
  show ?thesis
  proof (cases "x mod n + 1 = n")
    case True
    have "n * (x div n + 1) = n * (x div n) + n" by (simp add: algebra_simps)
    with d True have "x + 1 = n * (x div n + 1)" by linarith
    then have "(x + 1) div n = x div n + 1 \<and> (x + 1) mod n = 0"
      using assms by simp
    then show ?thesis by simp
  next
    case False
    then have b: "0 \<le> x mod n + 1" "x mod n + 1 < n" using r by simp_all
    have e: "x + 1 = (x mod n + 1) + n * (x div n)" using d by linarith
    have "(x + 1) div n = ((x mod n + 1) + n * (x div n)) div n"
      by (rule arg_cong [where f = "\<lambda>z. z div n", OF e])
    also have "\<dots> = x div n + (x mod n + 1) div n"
      using assms by (intro div_mult_self2) simp
    finally have A: "(x + 1) div n = x div n + (x mod n + 1) div n" .
    have "(x + 1) mod n = ((x mod n + 1) + n * (x div n)) mod n"
      by (rule arg_cong [where f = "\<lambda>z. z mod n", OF e])
    also have "\<dots> = (x mod n + 1) mod n"
      by (rule mod_mult_self2)
    finally have "(x + 1) mod n = (x mod n + 1) mod n" .
    with A have "(x + 1) div n = x div n + (x mod n + 1) div n"
      and "(x + 1) mod n = (x mod n + 1) mod n" by simp_all
    then show ?thesis using b r by simp
  qed
qed

lemma shift_mod: "(y - k * n) mod n = (y::int) mod n"
  using mod_mult_self2 [of y n "- k"] by (simp add: algebra_simps)

lemma year_mod_4: "(y - 1968) mod 4 = (y::int) mod 4"
  using shift_mod [of y 492 4] by simp

lemma year_mod_100: "(y - 1900) mod 100 = (y::int) mod 100"
  using shift_mod [of y 19 100] by simp

lemma year_mod_400: "(y - 1600) mod 400 = (y::int) mod 400"
  using shift_mod [of y 4 400] by simp

lemma mod_400_100: "(y::int) mod 400 = 0 \<Longrightarrow> y mod 100 = 0"
  using dvd_trans [of 100 400 y] by (simp add: mod_eq_0_iff_dvd)

lemma mod_100_4: "(y::int) mod 100 = 0 \<Longrightarrow> y mod 4 = 0"
  using dvd_trans [of 4 100 y] by (simp add: mod_eq_0_iff_dvd)

lemma year_step: "DayFromYear (y + 1) = DayFromYear y + DaysInYear y"
proof -
  have a: "(y + 1 - 1969) div 4 = (y - 1969) div 4 + (if y mod 4 = 0 then 1 else 0)"
    using div_succ [of 4 "y - 1969"] year_mod_4 [of y] by (simp add: algebra_simps)
  have b: "(y + 1 - 1901) div 100 = (y - 1901) div 100 + (if y mod 100 = 0 then 1 else 0)"
    using div_succ [of 100 "y - 1901"] year_mod_100 [of y] by (simp add: algebra_simps)
  have c: "(y + 1 - 1601) div 400 = (y - 1601) div 400 + (if y mod 400 = 0 then 1 else 0)"
    using div_succ [of 400 "y - 1601"] year_mod_400 [of y] by (simp add: algebra_simps)
  show ?thesis
    unfolding DayFromYear_def DaysInYear_def a b c
    using mod_400_100 [of y] mod_100_4 [of y] by auto
qed

lemma before_year_iff: "t < TimeFromYear y \<longleftrightarrow> Day t < DayFromYear y"
proof -
  have "t = 86400000 * (t div 86400000) + t mod 86400000" by simp
  moreover have "0 \<le> t mod 86400000" "t mod 86400000 < 86400000" by simp_all
  ultimately show ?thesis
    unfolding TimeFromYear_def Day_def msPerDay_def by linarith
qed

lemma DayFromYear_bounds:
  "146097 * (y - 1970) - 506 \<le> 400 * DayFromYear y"
  "400 * DayFromYear y \<le> 146097 * (y - 1970) + 589"
proof -
  have a: "4 * ((y - 1969) div 4) \<le> y - 1969" "y - 1969 < 4 * ((y - 1969) div 4) + 4"
    by (simp_all add: algebra_simps) 
  have b: "100 * ((y - 1901) div 100) \<le> y - 1901" "y - 1901 < 100 * ((y - 1901) div 100) + 100"
    by (simp_all add: algebra_simps)
  have c: "400 * ((y - 1601) div 400) \<le> y - 1601" "y - 1601 < 400 * ((y - 1601) div 400) + 400"
    by (simp_all add: algebra_simps)
  show "146097 * (y - 1970) - 506 \<le> 400 * DayFromYear y"
    unfolding DayFromYear_def using a b c by simp
  show "400 * DayFromYear y \<le> 146097 * (y - 1970) + 589"
    unfolding DayFromYear_def using a b c by simp
qed

lemma YearFromTime_correct:
  "DayFromYear (YearFromTime t) \<le> Day t \<and> Day t < DayFromYear (YearFromTime t + 1)"
proof -
  define k where "k = (400 * Day t) div 146097"
  define y where "y = 1970 + k"
  have k: "146097 * k \<le> 400 * Day t" "400 * Day t < 146097 * k + 146097"
    unfolding k_def by (simp_all add: algebra_simps)
  have Y: "YearFromTime t =
      (if Day t < DayFromYear y then y - 1 else if DayFromYear (y + 1) \<le> Day t then y + 1 else y)"
    unfolding YearFromTime_def Let_def y_def k_def before_year_iff
    by (simp add: not_less [symmetric] before_year_iff)
  show ?thesis
  proof (cases "Day t < DayFromYear y")
    case True
    have "400 * DayFromYear (y - 1) \<le> 400 * Day t"
      using DayFromYear_bounds(2) [of "y - 1"] k unfolding y_def by simp
    then show ?thesis using True Y by simp
  next
    case False
    show ?thesis
    proof (cases "DayFromYear (y + 1) \<le> Day t")
      case True
      have "400 * Day t < 400 * DayFromYear (y + 1 + 1)"
        using DayFromYear_bounds(1) [of "y + 1 + 1"] k unfolding y_def by simp
      then show ?thesis using True False Y by simp
    next
      case F2: False
      then show ?thesis using False Y by simp
    qed
  qed
qed

lemma DaysInYear_cases: "DaysInYear y = 365 \<or> DaysInYear y = 366"
  by (simp add: DaysInYear_def)

lemma DayWithinYear_bounds: "0 \<le> DayWithinYear t \<and> DayWithinYear t < 365 + InLeapYear t"
  using YearFromTime_correct [of t] year_step [of "YearFromTime t"] DaysInYear_cases [of "YearFromTime t"]
  by (auto simp: DayWithinYear_def InLeapYear_def)

lemma InLeapYear_cases: "InLeapYear t = 0 \<or> InLeapYear t = 1"
  by (simp add: InLeapYear_def)

lemma MonthFromTime_bounds: "0 \<le> MonthFromTime t \<and> MonthFromTime t \<le> 11"
  by (simp add: MonthFromTime_def Let_def)

lemma month_date:
  "DaysBeforeMonth (InLeapYear t) (MonthFromTime t) + DateFromTime t - 1 = DayWithinYear t"
  by (simp add: DaysBeforeMonth_def DateFromTime_def MonthFromTime_def Let_def)

lemma DateFromTime_bounds: "1 \<le> DateFromTime t \<and> DateFromTime t \<le> 31"
  using DayWithinYear_bounds [of t] InLeapYear_cases [of t]
  by (auto simp: DateFromTime_def MonthFromTime_def Let_def)

lemma MakeDay_inverse: "MakeDay (YearFromTime t) (MonthFromTime t) (DateFromTime t) = Day t"
proof -
  have m: "MonthFromTime t div 12 = 0" "MonthFromTime t mod 12 = MonthFromTime t"
    using MonthFromTime_bounds [of t] by simp_all
  have l: "(if DaysInYear (YearFromTime t) = 366 then 1 else 0) = InLeapYear t"
    by (simp add: InLeapYear_def)
  show ?thesis
    unfolding MakeDay_def Let_def m using month_date [of t]
    by (simp add: l DayWithinYear_def)
qed

lemma clock_fields:
  "0 \<le> HourFromTime t \<and> HourFromTime t \<le> 23 \<and> 0 \<le> MinFromTime t \<and> MinFromTime t \<le> 59
   \<and> 0 \<le> SecFromTime t \<and> SecFromTime t \<le> 59 \<and> 0 \<le> msFromTime t \<and> msFromTime t \<le> 999"
proof -
  have "\<And>a n :: int. 0 < n \<Longrightarrow> 0 \<le> a mod n \<and> a mod n \<le> n - 1"
    by simp
  from this [of 24] this [of 60] this [of 1000] show ?thesis
    by (simp add: HourFromTime_def MinFromTime_def SecFromTime_def msFromTime_def)
qed

lemma MakeTime_inverse:
  "MakeTime (HourFromTime t) (MinFromTime t) (SecFromTime t) (msFromTime t) = TimeWithinDay t"
proof -
  define s where "s = t div 1000"
  define m where "m = s div 60"
  define h where "h = m div 60"
  have d1: "t div 60000 = m"
    using zdiv_zmult2_eq [of 60 t 1000] by (simp add: m_def s_def)
  have d2: "t div 3600000 = h"
    using zdiv_zmult2_eq [of 60 t 60000] d1 by (simp add: h_def)
  have d3: "t div 86400000 = h div 24"
    using zdiv_zmult2_eq [of 24 t 3600000] d2 by simp
  have e1: "t = 1000 * s + t mod 1000" by (simp add: s_def)
  have e2: "s = 60 * m + s mod 60" by (simp add: m_def)
  have e3: "m = 60 * h + m mod 60" by (simp add: h_def)
  have e4: "h = 24 * (h div 24) + h mod 24" by simp
  have e5: "t mod 86400000 = t - 86400000 * (h div 24)"
    using d3 by (simp add: minus_mult_div_eq_mod [symmetric])
  show ?thesis
    unfolding MakeTime_def HourFromTime_def MinFromTime_def SecFromTime_def msFromTime_def
      TimeWithinDay_def msPerDay_def d1 d2 e5 s_def [symmetric]
    using e1 e2 e3 e4 by linarith
qed

lemma MakeDate_inverse: "MakeDate (Day t) (TimeWithinDay t) = t"
  by (simp add: MakeDate_def Day_def TimeWithinDay_def)

lemma YearFromTime_bounds:
  assumes "is_time_value t"
  shows "- 271821 \<le> YearFromTime t \<and> YearFromTime t \<le> 275760"
proof -
  have d: "- 100000000 \<le> Day t \<and> Day t \<le> 100000000"
    using assms unfolding is_time_value_def Day_def msPerDay_def by linarith
  have "400 * DayFromYear (YearFromTime t) \<le> 400 * 100000000"
    using YearFromTime_correct [of t] d by simp
  then have u: "YearFromTime t \<le> 275760"
    using DayFromYear_bounds(1) [of "YearFromTime t"] by simp
  have "400 * (- 100000000) < 400 * DayFromYear (YearFromTime t + 1)"
    using YearFromTime_correct [of t] d by simp
  then have "- 271821 \<le> YearFromTime t"
    using DayFromYear_bounds(2) [of "YearFromTime t + 1"] by simp
  with u show ?thesis by simp
qed

section \<open>A timestamp denotes the instant it was made from\<close>

lemma pad2: "pad 2 k = [digit_char (k div 10 mod 10), digit_char (k mod 10)]"
  by (simp add: numeral_2_eq_2)

lemma pad3: "pad 3 k = [digit_char (k div 10 div 10 mod 10), digit_char (k div 10 mod 10), digit_char (k mod 10)]"
  by (simp add: numeral_3_eq_3)

lemma read_two: "k < 100 \<Longrightarrow> read_digits [digit_char (k div 10 mod 10), digit_char (k mod 10)] = Some k"
  using read_digits_pad [of 2 k] by (simp add: pad2)

lemma read_three:
  "k < 1000 \<Longrightarrow>
   read_digits [digit_char (k div 10 div 10 mod 10), digit_char (k div 10 mod 10), digit_char (k mod 10)] = Some k"
  using read_digits_pad [of 3 k] by (simp add: pad3)

lemma parse_fields_format:
  assumes "1 \<le> mo" "mo \<le> 12" "1 \<le> da" "da \<le> 31" "h \<le> 23" "mi \<le> 59" "se \<le> 59" "ms \<le> 999"
  shows "parse_fields y (''-'' @ pad 2 mo @ ''-'' @ pad 2 da @ ''T'' @ pad 2 h @ '':''
           @ pad 2 mi @ '':'' @ pad 2 se @ ''.'' @ pad 3 ms @ ''Z'')
         = TimeClip (MakeDate (MakeDay y (int mo - 1) (int da))
                              (MakeTime (int h) (int mi) (int se) (int ms)))"
proof -
  have b: "mo < 100" "da < 100" "h < 100" "mi < 100" "se < 100" "ms < 1000"
    using assms by simp_all
  note r = read_two [OF b(1)] read_two [OF b(2)] read_two [OF b(3)] read_two [OF b(4)]
    read_two [OF b(5)] read_three [OF b(6)]
  have "parse_fields y (''-'' @ pad 2 mo @ ''-'' @ pad 2 da @ ''T'' @ pad 2 h @ '':''
           @ pad 2 mi @ '':'' @ pad 2 se @ ''.'' @ pad 3 ms @ ''Z'')
      = (if 1 \<le> mo \<and> mo \<le> 12 \<and> 1 \<le> da \<and> da \<le> 31 \<and> mi \<le> 59 \<and> se \<le> 59
            \<and> (h \<le> 23 \<or> h = 24 \<and> mi = 0 \<and> se = 0 \<and> ms = 0)
         then TimeClip (MakeDate (MakeDay y (int mo - 1) (int da))
                                 (MakeTime (int h) (int mi) (int se) (int ms)))
         else None)"
    unfolding parse_fields_def pad2 pad3 by (simp add: r)
  then show ?thesis using assms by simp
qed

lemma hd_pad: "0 < n \<Longrightarrow> \<exists>d<10. hd (pad n k) = digit_char d"
proof (induction n arbitrary: k)
  case 0
  then show ?case by simp
next
  case (Suc n)
  show ?case
  proof (cases "n = 0")
    case True
    have "k mod 10 < 10" by simp
    then show ?thesis using True by (auto intro: exI [of _ "k mod 10"])
  next
    case False
    then have "pad n (k div 10) \<noteq> []"
      using length_pad [of n "k div 10"] by auto
    then have "hd (pad (Suc n) k) = hd (pad n (k div 10))" by simp
    then show ?thesis using Suc.IH [of "k div 10"] False by simp
  qed
qed

lemma digit_char_not_sign: "d < 10 \<Longrightarrow> digit_char d \<noteq> CHR ''+'' \<and> digit_char d \<noteq> CHR ''-''"
  using is_digit_digit_char [of d] by (auto simp: is_digit_def)

lemma Date_parse_unsigned:
  assumes "s \<noteq> []" "hd s \<noteq> CHR ''+''" "hd s \<noteq> CHR ''-''"
  shows "Date_parse s =
    (case read_digits (take 4 s) of
       None \<Rightarrow> None
     | Some y \<Rightarrow> if length s < 4 then None else parse_fields (int y) (drop 4 s))"
  using assms by (cases s) (auto simp: Date_parse_def split: option.split)

lemma Date_parse_ISOYear:
  assumes "- 999999 \<le> y" "y \<le> 999999"
  shows "Date_parse (ISOYear y @ r) = parse_fields y r"
proof (cases "0 \<le> y \<and> y \<le> 9999")
  case True
  then have k: "nat y < 10 ^ 4" by auto
  obtain d where d: "d < 10" "hd (pad 4 (nat y)) = digit_char d"
    using hd_pad [of 4 "nat y"] by auto
  have ne: "pad 4 (nat y) \<noteq> []" using length_pad [of 4 "nat y"] by auto
  have "Date_parse (pad 4 (nat y) @ r) = parse_fields (int (nat y)) r"
    using Date_parse_unsigned [of "pad 4 (nat y) @ r"] ne d digit_char_not_sign [of d]
      read_digits_pad [of 4 "nat y"] k
    by (simp add: length_pad)
  then show ?thesis using True by (simp add: ISOYear_def)
next
  case False
  then have k: "nat \<bar>y\<bar> < 10 ^ 6" "nat \<bar>y\<bar> \<noteq> 0" using assms by auto
  show ?thesis
  proof (cases "y < 0")
    case True
    then have n: "nat (- y) < 10 ^ 6" "nat (- y) \<noteq> 0" "int (nat (- y)) = - y"
      using assms by auto
    have "Date_parse (CHR ''-'' # pad 6 (nat (- y)) @ r) = parse_fields y r"
      using n by (simp add: Date_parse_def length_pad read_digits_pad)
    then show ?thesis
      using True False by (simp add: ISOYear_def)
  next
    case F: False
    then have n: "nat y < 10 ^ 6" "int (nat y) = y"
      using assms by auto
    have "Date_parse (CHR ''+'' # pad 6 (nat y) @ r) = parse_fields y r"
      using n by (simp add: Date_parse_def length_pad read_digits_pad)
    then show ?thesis
      using F False by (simp add: ISOYear_def)
  qed
qed

lemma Date_parse_ISOFormat:
  assumes "is_time_value t"
  shows "Date_parse (ISOFormat t) = Some t"
proof -
  have y: "- 999999 \<le> YearFromTime t" "YearFromTime t \<le> 999999"
    using YearFromTime_bounds [OF assms] by simp_all
  have f: "1 \<le> nat (MonthFromTime t + 1)" "nat (MonthFromTime t + 1) \<le> 12"
    "1 \<le> nat (DateFromTime t)" "nat (DateFromTime t) \<le> 31"
    "nat (HourFromTime t) \<le> 23" "nat (MinFromTime t) \<le> 59" "nat (SecFromTime t) \<le> 59"
    "nat (msFromTime t) \<le> 999"
    using MonthFromTime_bounds [of t] DateFromTime_bounds [of t] clock_fields [of t] by auto
  have i: "int (nat (MonthFromTime t + 1)) - 1 = MonthFromTime t"
    "int (nat (DateFromTime t)) = DateFromTime t"
    "int (nat (HourFromTime t)) = HourFromTime t" "int (nat (MinFromTime t)) = MinFromTime t"
    "int (nat (SecFromTime t)) = SecFromTime t" "int (nat (msFromTime t)) = msFromTime t"
    using MonthFromTime_bounds [of t] DateFromTime_bounds [of t] clock_fields [of t] by simp_all
  have "Date_parse (ISOFormat t) =
      TimeClip (MakeDate (MakeDay (YearFromTime t) (MonthFromTime t) (DateFromTime t))
        (MakeTime (HourFromTime t) (MinFromTime t) (SecFromTime t) (msFromTime t)))"
    unfolding ISOFormat_def Date_parse_ISOYear [OF y] parse_fields_format [OF f] i ..
  also have "\<dots> = TimeClip t"
    by (simp only: MakeDay_inverse MakeTime_inverse MakeDate_inverse)
  also have "\<dots> = Some t"
    using assms by (simp add: TimeClip_def is_time_value_def)
  finally show ?thesis .
qed

section \<open>What the generation functions return\<close>

lemma hostname_cases:
  "js_or (env_get env ''HOSTNAME'') (JString ''Not set (check your platform configuration)'') =
     (case env ''HOSTNAME'' of
        None \<Rightarrow> JString ''Not set (check your platform configuration)''
      | Some h \<Rightarrow>
          if h = [] then JString ''Not set (check your platform configuration)'' else JString h)"
  by (simp add: js_or_def env_get_def split: option.split)

lemma getServerSideProps_result:
  "getServerSideProps now env =
     Inr (JObject
       [(''props'', JObject
           [(''serverTime'', JString (ISOFormat now)),
            (''hostname'', js_or (env_get env ''HOSTNAME'') (JString fallback))])])"
  by (simp add: getServerSideProps_def toISOString_def Date_current_def)

lemma getStaticProps_result:
  assumes "is_time_value (now' + 10000)"
  shows "getStaticProps now now' env =
     Inr (JObject
       [(''props'', JObject
           [(''renderTime'', JString (ISOFormat now)),
            (''hostname'', js_or (env_get env ''HOSTNAME'') (JString fallback)),
            (''nextRevalidation'', JString (ISOFormat (now' + 10000)))]),
        (''revalidate'', JNumber 10)])"
  using assms
  by (simp add: getStaticProps_def toISOString_def Date_current_def Date_of_value_def
      TimeClip_def is_time_value_def)

lemma hello_payload:
  \<open>JSON_stringify (JObject [(''message'', JString ''Hello World!'')])
     = Some ''{"message":"Hello World!"}''\<close>
  by (simp add: QuoteJSONString_def QuoteJSONChar_def)

section \<open>Sequences of requests to the server-rendered page\<close>

lemma serverTimeOf_result:
  assumes "is_time_value now"
  shows "serverTimeOf (getServerSideProps now env) = Some now"
  using assms
  by (simp add: serverTimeOf_def getServerSideProps_result timestamp_def js_get_def
      Date_parse_ISOFormat)

lemma on_demand_instants:
  assumes "\<forall>q\<in>set reqs. is_time_value (fst q)"
  shows "map serverTimeOf (on_demand_run reqs) = map (\<lambda>q. Some (fst q)) reqs"
  using assms
  by (induction reqs) (auto simp: on_demand_run_def serverTimeOf_result)

lemma sorted_instants: "sorted_wrt instant_le (map (\<lambda>q. Some (fst q)) reqs) = sorted (map fst reqs)"
  by (simp add: sorted_wrt_map instant_le_def)

section \<open>Runs of the cache\<close>

lemma run_append:
  "run env c (es @ fs) =
     (case run env c es of
        (c', outs) \<Rightarrow> (case run env c' fs of (c'', outs') \<Rightarrow> (c'', outs @ outs')))"
  by (induction es arbitrary: c) (auto split: prod.splits)

lemma run_requests_unchanged:
  assumes "\<forall>t\<in>set ts. \<not> stale c t \<or> inFlight c"
  shows "run env c (map Request ts) = (c, replicate (length ts) (snapshot c))"
  using assms by (induction ts) auto

lemma run_requests_stale:
  assumes "\<not> inFlight c" "ts \<noteq> []" "\<forall>t\<in>set ts. stale c t"
  shows "run env c (map Request ts) =
           (c\<lparr>inFlight := True, regenerations := Suc (regenerations c)\<rparr>,
            replicate (length ts) (snapshot c))"
proof (cases ts)
  case Nil
  with assms show ?thesis by simp
next
  case (Cons t ts')
  let ?c = "c\<lparr>inFlight := True, regenerations := Suc (regenerations c)\<rparr>"
  have "run env ?c (map Request ts') = (?c, replicate (length ts') (snapshot ?c))"
    by (rule run_requests_unchanged) simp
  then show ?thesis using assms Cons by simp
qed

lemma build_result:
  assumes "is_time_value (now' + 10000)"
  shows "build env now now' t =
    Inr \<lparr>snapshot = JObject
            [(''renderTime'', JString (ISOFormat now)),
             (''hostname'', js_or (env_get env ''HOSTNAME'') (JString fallback)),
             (''nextRevalidation'', JString (ISOFormat (now' + 10000)))],
         revalidate = JNumber 10, producedAt = t, inFlight = False, regenerations = 0\<rparr>"
  by (simp add: build_def getStaticProps_result [OF assms] js_get_def)

lemma stale_iff:
  "revalidate c = JNumber 10 \<Longrightarrow> stale c t \<longleftrightarrow> producedAt c + 10000 \<le> t"
  by (auto simp: stale_def window_ms_def)

section \<open>The claims\<close>

text \<open>
  C1. The regenerated page's \<open>getStaticProps\<close> resolves to a record with the two properties
  \<open>props\<close> and \<open>revalidate\<close>, and its \<open>revalidate\<close> is the number 10 (whenever the instant ten
  seconds after its clock reading is still a time value, so that it resolves at all); the
  server-rendered page's \<open>getServerSideProps\<close> resolves to a record whose only property is
  \<open>props\<close>, so it has no \<open>revalidate\<close>.
\<close>

theorem revalidate_policy:
  "(is_time_value (now' + 10000) \<longrightarrow>
      (\<exists>r p. getStaticProps now now' env = Inr r
         \<and> r = JObject [(''props'', p), (''revalidate'', JNumber 10)]
         \<and> js_keys r = [''props'', ''revalidate'']
         \<and> js_get r ''revalidate'' = JNumber 10))
   \<and> (\<exists>r p. getServerSideProps t env = Inr r
          \<and> r = JObject [(''props'', p)]
          \<and> js_keys r = [''props'']
          \<and> ''revalidate'' \<notin> set (js_keys r)
          \<and> js_get r ''revalidate'' = JUndefined)"
  by (simp add: getStaticProps_result getServerSideProps_result js_get_def js_keys_def)

theorem revalidate_policy_witness:
  "is_time_value (1762166400123 + 10000)
   \<and> (\<exists>r p. getStaticProps 1762166400000 1762166400123 Map.empty = Inr r
          \<and> r = JObject [(''props'', p), (''revalidate'', JNumber 10)]
          \<and> js_keys r = [''props'', ''revalidate'']
          \<and> js_get r ''revalidate'' = JNumber 10)
   \<and> (\<exists>r p. getServerSideProps 1762166400000 Map.empty = Inr r
          \<and> r = JObject [(''props'', p)]
          \<and> js_keys r = [''props'']
          \<and> ''revalidate'' \<notin> set (js_keys r)
          \<and> js_get r ''revalidate'' = JUndefined)"
  using revalidate_policy [of 1762166400123 1762166400000 Map.empty 1762166400000]
  by (simp add: is_time_value_def)

text \<open>
  C2, for the requests that carry a body back. Whenever the listener of \<open>hello.js\<close> is run
  for a request, the response has status 200 and the one header
  \<open>Content-Type: application/json\<close> set on it; its body is exactly
  \<open>{"message":"Hello World!"}\<close> unless the method of the request is \<open>HEAD\<close>, and empty when
  it is. The server listens on port 8080.
\<close>

theorem hello_response:
  \<open>(req_method req \<noteq> ''HEAD'' \<longrightarrow>
      serve hello req =
        Inr \<lparr>statusCode = 200, headers = [(''Content-Type'', ''application/json'')],
             headersSent = True, hasBody = True, body = ''{"message":"Hello World!"}'',
             finished = True\<rparr>)
   \<and> (req_method req = ''HEAD'' \<longrightarrow>
      serve hello req =
        Inr \<lparr>statusCode = 200, headers = [(''Content-Type'', ''application/json'')],
             headersSent = True, hasBody = False, body = [], finished = True\<rparr>)
   \<and> port hello = Some 8080\<close>
  by (simp add: serve_def hello_def listen_def createServer_def requestListener_def
      writeHead_def res_end_def ServerResponse_def hello_payload del: JSON_stringify.simps)

theorem hello_response_witness:
  \<open>req_method \<lparr>req_method = ''GET'', req_url = ''/'', req_headers = [], req_body = []\<rparr>
     \<noteq> ''HEAD''
   \<and> serve hello \<lparr>req_method = ''GET'', req_url = ''/'', req_headers = [], req_body = []\<rparr> =
        Inr \<lparr>statusCode = 200, headers = [(''Content-Type'', ''application/json'')],
             headersSent = True, hasBody = True, body = ''{"message":"Hello World!"}'',
             finished = True\<rparr>
   \<and> req_method \<lparr>req_method = ''HEAD'', req_url = ''/'', req_headers = [], req_body = []\<rparr>
     = ''HEAD''
   \<and> serve hello \<lparr>req_method = ''HEAD'', req_url = ''/'', req_headers = [], req_body = []\<rparr> =
        Inr \<lparr>statusCode = 200, headers = [(''Content-Type'', ''application/json'')],
             headersSent = True, hasBody = False, body = [], finished = True\<rparr>
   \<and> port hello = Some 8080\<close>
  using
    hello_response [of "\<lparr>req_method = ''GET'', req_url = ''/'', req_headers = [], req_body = []\<rparr>"]
    hello_response [of "\<lparr>req_method = ''HEAD'', req_url = ''/'', req_headers = [], req_body = []\<rparr>"]
  by simp

text \<open>
  C2 as it stands fails on a \<open>HEAD\<close> request: the listener ends the response with the JSON
  text, and no body is sent.
\<close>

theorem hello_body_for_every_request_counterexample:
  \<open>serve hello \<lparr>req_method = ''HEAD'', req_url = ''/'', req_headers = [], req_body = []\<rparr> =
        Inr \<lparr>statusCode = 200, headers = [(''Content-Type'', ''application/json'')],
             headersSent = True, hasBody = False, body = [], finished = True\<rparr>
   \<and> body (projr (serve hello
          \<lparr>req_method = ''HEAD'', req_url = ''/'', req_headers = [], req_body = []\<rparr>))
       \<noteq> ''{"message":"Hello World!"}''\<close>
  by (simp add: serve_def hello_def listen_def createServer_def requestListener_def
      writeHead_def res_end_def ServerResponse_def hello_payload del: JSON_stringify.simps)

text \<open>
  C3. When \<open>HOSTNAME\<close> is not in the environment, the \<open>hostname\<close> of the snapshot is the
  literal fallback string, for both generation functions: each resolves to a record (for
  \<open>getStaticProps\<close>, whenever the instant ten seconds after its clock reading is a time value)
  and the property is that string, not \<open>undefined\<close>.
\<close>

theorem hostname_fallback_when_absent:
  assumes "env ''HOSTNAME'' = None"
  shows "(\<exists>r. getServerSideProps t env = Inr r
            \<and> js_get (js_get r ''props'') ''hostname''
                = JString ''Not set (check your platform configuration)'')
     \<and> (is_time_value (now' + 10000) \<longrightarrow>
          (\<exists>r. getStaticProps now now' env = Inr r
            \<and> js_get (js_get r ''props'') ''hostname''
                = JString ''Not set (check your platform configuration)''))"
  using assms
  by (simp add: getStaticProps_result getServerSideProps_result hostname_cases js_get_def
      fallback_def)

theorem hostname_fallback_when_absent_witness:
  "(Map.empty :: process_env) ''HOSTNAME'' = None
   \<and> is_time_value (1762166400123 + 10000)
   \<and> (\<exists>r. getServerSideProps 1762166400000 Map.empty = Inr r
          \<and> js_get (js_get r ''props'') ''hostname''
              = JString ''Not set (check your platform configuration)'')
   \<and> (\<exists>r. getStaticProps 1762166400000 1762166400123 Map.empty = Inr r
          \<and> js_get (js_get r ''props'') ''hostname''
              = JString ''Not set (check your platform configuration)'')"
  using hostname_fallback_when_absent
    [of Map.empty 1762166400000 1762166400123 1762166400000]
  by (simp add: is_time_value_def)

text \<open>
  C4. A request to the server-rendered page gets a record made from the clock reading and the
  value of \<open>HOSTNAME\<close> at the call and from nothing else: its \<open>serverTime\<close> is the ISO-8601
  string of the reading (read back, it is the reading), its \<open>hostname\<close> is the value of
  \<open>HOSTNAME\<close> or the fallback, and two calls with the same reading and the same \<open>HOSTNAME\<close>
  resolve to the same record.
\<close>

theorem on_demand_snapshot:
  "getServerSideProps now env =
     Inr (JObject
       [(''props'', JObject
           [(''serverTime'', JString (ISOFormat now)),
            (''hostname'',
               (case env ''HOSTNAME'' of
                  None \<Rightarrow> JString ''Not set (check your platform configuration)''
                | Some h \<Rightarrow>
                    if h = [] then JString ''Not set (check your platform configuration)''
                    else JString h))])])
   \<and> (is_time_value now \<longrightarrow> Date_parse (ISOFormat now) = Some now)
   \<and> (env' ''HOSTNAME'' = env ''HOSTNAME'' \<longrightarrow>
        getServerSideProps now env' = getServerSideProps now env)"
  by (simp add: getServerSideProps_result hostname_cases Date_parse_ISOFormat fallback_def)

theorem on_demand_snapshot_witness:
  "is_time_value 1762166400123
   \<and> [''HOSTNAME'' \<mapsto> ''pod-7'', ''PORT'' \<mapsto> ''3000''] ''HOSTNAME''
       = [''HOSTNAME'' \<mapsto> ''pod-7''] ''HOSTNAME''
   \<and> getServerSideProps 1762166400123 [''HOSTNAME'' \<mapsto> ''pod-7''] =
       Inr (JObject
         [(''props'', JObject
             [(''serverTime'', JString ''2025-11-03T10:40:00.123Z''),
              (''hostname'', JString ''pod-7'')])])
   \<and> Date_parse ''2025-11-03T10:40:00.123Z'' = Some 1762166400123
   \<and> getServerSideProps 1762166400123 [''HOSTNAME'' \<mapsto> ''pod-7'', ''PORT'' \<mapsto> ''3000'']
       = getServerSideProps 1762166400123 [''HOSTNAME'' \<mapsto> ''pod-7'']"
proof -
  have f: "ISOFormat 1762166400123 = ''2025-11-03T10:40:00.123Z''"
    by code_simp
  show ?thesis
    using on_demand_snapshot [of 1762166400123 "[''HOSTNAME'' \<mapsto> ''pod-7'']"
        "[''HOSTNAME'' \<mapsto> ''pod-7'', ''PORT'' \<mapsto> ''3000'']"]
    by (simp add: is_time_value_def f)
qed

text \<open>
  C5, with the third property of the regenerated page. The \<open>props\<close> of the server-rendered page are exactly \<open>serverTime\<close>, the
  ISO-8601 string of the clock reading, and \<open>hostname\<close>, a string. The \<open>props\<close> of the
  regenerated page are \<open>renderTime\<close>, the ISO-8601 string of the clock reading, \<open>hostname\<close>, a
  string, and a third property \<open>nextRevalidation\<close>, the ISO-8601 string of the instant
  10 000 ms after the reading of \<open>Date.now()\<close>.
\<close>

theorem props_fields:
  "(\<exists>r p. getServerSideProps t env = Inr r \<and> js_get r ''props'' = p
       \<and> js_keys p = [''serverTime'', ''hostname'']
       \<and> (is_time_value t \<longrightarrow> timestamp p ''serverTime'' = Some t)
       \<and> (\<exists>h. js_get p ''hostname'' = JString h))
   \<and> (is_time_value (now' + 10000) \<longrightarrow>
        (\<exists>r p. getStaticProps now now' env = Inr r \<and> js_get r ''props'' = p
          \<and> js_keys p = [''renderTime'', ''hostname'', ''nextRevalidation'']
          \<and> (is_time_value now \<longrightarrow> timestamp p ''renderTime'' = Some now)
          \<and> timestamp p ''nextRevalidation'' = Some (now' + 10000)
          \<and> (\<exists>h. js_get p ''hostname'' = JString h)))"
  by (auto simp: getStaticProps_result getServerSideProps_result hostname_cases js_get_def
      js_keys_def timestamp_def Date_parse_ISOFormat fallback_def split: option.split)

theorem props_fields_witness:
  "is_time_value 951782399999 \<and> is_time_value (951782400000 + 10000)
   \<and> (\<exists>r p. getServerSideProps 951782399999 Map.empty = Inr r \<and> js_get r ''props'' = p
        \<and> js_keys p = [''serverTime'', ''hostname'']
        \<and> timestamp p ''serverTime'' = Some 951782399999
        \<and> (\<exists>h. js_get p ''hostname'' = JString h))
   \<and> (\<exists>r p. getStaticProps 951782399999 951782400000 Map.empty = Inr r
        \<and> js_get r ''props'' = p
        \<and> js_keys p = [''renderTime'', ''hostname'', ''nextRevalidation'']
        \<and> timestamp p ''renderTime'' = Some 951782399999
        \<and> timestamp p ''nextRevalidation'' = Some 951782410000
        \<and> (\<exists>h. js_get p ''hostname'' = JString h))"
  using props_fields [of 951782399999 Map.empty 951782400000 951782399999]
  by (simp add: is_time_value_def)

text \<open>
  C5 as it stands fails on the regenerated page: generated at the epoch with no
  \<open>HOSTNAME\<close>, its \<open>props\<close> have three properties, the third being \<open>nextRevalidation\<close>.
\<close>

theorem props_only_snapshot_fields_counterexample:
  "getStaticProps 0 0 Map.empty =
     Inr (JObject
       [(''props'', JObject
           [(''renderTime'', JString ''1970-01-01T00:00:00.000Z''),
            (''hostname'', JString ''Not set (check your platform configuration)''),
            (''nextRevalidation'', JString ''1970-01-01T00:00:10.000Z'')]),
        (''revalidate'', JNumber 10)])
   \<and> js_keys (js_get (projr (getStaticProps 0 0 Map.empty)) ''props'')
       \<noteq> [''renderTime'', ''hostname'']
   \<and> length (js_keys (js_get (projr (getStaticProps 0 0 Map.empty)) ''props'')) = 3"
  by code_simp

text \<open>
  C6. Over any sequence of requests to the server-rendered page whose clock readings do not
  decrease (a monotone clock, in milliseconds), the instants of the returned \<open>serverTime\<close>
  strings do not decrease, and of two requests whose readings are at least 1 ms apart the
  later one gets a strictly later \<open>serverTime\<close>.
\<close>

theorem on_demand_timestamps_monotone:
  assumes "sorted (map fst reqs)"
    and "\<forall>q\<in>set reqs. is_time_value (fst q)"
  shows "sorted_wrt instant_le (map serverTimeOf (on_demand_run reqs))
     \<and> (\<forall>i j. i < j \<and> j < length reqs \<and> fst (reqs ! i) + 1 \<le> fst (reqs ! j) \<longrightarrow>
           instant_less (map serverTimeOf (on_demand_run reqs) ! i)
                        (map serverTimeOf (on_demand_run reqs) ! j))"
proof -
  have e: "map serverTimeOf (on_demand_run reqs) = map (\<lambda>q. Some (fst q)) reqs"
    using assms(2) by (rule on_demand_instants)
  have "sorted_wrt instant_le (map serverTimeOf (on_demand_run reqs))"
    unfolding e sorted_instants by (rule assms(1))
  moreover have "\<forall>i j. i < j \<and> j < length reqs \<and> fst (reqs ! i) + 1 \<le> fst (reqs ! j) \<longrightarrow>
      instant_less (map serverTimeOf (on_demand_run reqs) ! i)
                   (map serverTimeOf (on_demand_run reqs) ! j)"
    unfolding e by (auto simp: instant_less_def)
  ultimately show ?thesis by simp
qed

theorem on_demand_timestamps_monotone_witness:
  "sorted (map fst [(1762166400123 :: int, Map.empty), (1762166400123, [''HOSTNAME'' \<mapsto> ''pod-7'']),
                     (1762166400124, Map.empty :: process_env)])
   \<and> is_time_value 1762166400123 \<and> is_time_value 1762166400124
   \<and> map serverTimeOf (on_demand_run
        [(1762166400123 :: int, Map.empty), (1762166400123, [''HOSTNAME'' \<mapsto> ''pod-7'']),
         (1762166400124, Map.empty)])
       = [Some 1762166400123, Some 1762166400123, Some 1762166400124]
   \<and> sorted_wrt instant_le (map serverTimeOf (on_demand_run
        [(1762166400123 :: int, Map.empty), (1762166400123, [''HOSTNAME'' \<mapsto> ''pod-7'']),
         (1762166400124, Map.empty)]))
   \<and> instant_less
        (map serverTimeOf (on_demand_run
          [(1762166400123 :: int, Map.empty), (1762166400123, [''HOSTNAME'' \<mapsto> ''pod-7'']),
           (1762166400124, Map.empty)]) ! 1)
        (map serverTimeOf (on_demand_run
          [(1762166400123 :: int, Map.empty), (1762166400123, [''HOSTNAME'' \<mapsto> ''pod-7'']),
           (1762166400124, Map.empty)]) ! 2)"
proof -
  let ?reqs = "[(1762166400123 :: int, Map.empty), (1762166400123, [''HOSTNAME'' \<mapsto> ''pod-7'']),
                (1762166400124, Map.empty :: process_env)]"
  have s: "sorted (map fst ?reqs)" by simp
  have v: "\<forall>q\<in>set ?reqs. is_time_value (fst q)" by (simp add: is_time_value_def)
  have c: "map serverTimeOf (on_demand_run ?reqs)
      = [Some 1762166400123, Some 1762166400123, Some 1762166400124]"
    by code_simp
  have i: "(1::nat) < 2 \<and> 2 < length ?reqs \<and> fst (?reqs ! 1) + 1 \<le> fst (?reqs ! 2)" by simp
  from on_demand_timestamps_monotone [OF s v] i
  have "sorted_wrt instant_le (map serverTimeOf (on_demand_run ?reqs))"
    and "instant_less (map serverTimeOf (on_demand_run ?reqs) ! 1)
                      (map serverTimeOf (on_demand_run ?reqs) ! 2)"
    by blast+
  moreover have "is_time_value 1762166400123 \<and> is_time_value 1762166400124"
    by (simp add: is_time_value_def)
  ultimately show ?thesis using s c by blast
qed

text \<open>
  C7. The page is first generated with clock readings \<open>a\<close>, \<open>a'\<close> and is in place at \<open>g\<close>; the
  window is the 10 s that \<open>getStaticProps\<close> returns. Every request before \<open>g\<close> + 10 s is
  answered with that snapshot and starts nothing. The first request at or after \<open>g\<close> + 10 s
  is answered with the same snapshot and starts one regeneration. Once that regeneration, run
  at readings \<open>b\<close>, \<open>b'\<close> after the request, has completed, a request is answered with the new
  snapshot, whose \<open>renderTime\<close> is strictly later than that of the old one.
\<close>

theorem windowed_cache_scenario:
  assumes "is_time_value a" and "a \<le> a'" and "a' \<le> g" and "is_time_value (a' + 10000)"
    and "\<forall>t\<in>set ts. t < g + 10000"
    and "g + 10000 \<le> t1"
    and "t1 \<le> b" and "b \<le> b'" and "b' \<le> d" and "is_time_value (b' + 10000)"
  shows "\<exists>c0 c3 A B.
           build env a a' g = Inr c0 \<and> snapshot c0 = A \<and> revalidate c0 = JNumber 10
         \<and> run env c0 (map Request ts) = (c0, replicate (length ts) A)
         \<and> run env c0 (map Request ts @ [Request t1])
             = (c0\<lparr>inFlight := True, regenerations := 1\<rparr>, replicate (length ts) A @ [A])
         \<and> run env c0 (map Request ts @ [Request t1, Completion b b' d, Request u])
             = (c3, replicate (length ts) A @ [A, B])
         \<and> instant_less (timestamp A ''renderTime'') (timestamp B ''renderTime'')"
proof -
  let ?h = "js_or (env_get env ''HOSTNAME'') (JString fallback)"
  let ?A = "JObject [(''renderTime'', JString (ISOFormat a)), (''hostname'', ?h),
                     (''nextRevalidation'', JString (ISOFormat (a' + 10000)))]"
  let ?B = "JObject [(''renderTime'', JString (ISOFormat b)), (''hostname'', ?h),
                     (''nextRevalidation'', JString (ISOFormat (b' + 10000)))]"
  let ?c0 = "\<lparr>snapshot = ?A, revalidate = JNumber 10, producedAt = g, inFlight = False,
               regenerations = 0\<rparr>"
  let ?c1 = "\<lparr>snapshot = ?A, revalidate = JNumber 10, producedAt = g, inFlight = True,
               regenerations = Suc 0\<rparr>"
  let ?c2 = "\<lparr>snapshot = ?B, revalidate = JNumber 10, producedAt = d, inFlight = False,
               regenerations = Suc 0\<rparr>"
  have b0: "build env a a' g = Inr ?c0"
    using assms(4) by (rule build_result)
  have fresh: "\<forall>t\<in>set ts. \<not> stale ?c0 t \<or> inFlight ?c0"
    using assms(5) by (auto simp: stale_iff)
  have r1: "run env ?c0 (map Request ts) = (?c0, replicate (length ts) ?A)"
    using run_requests_unchanged [OF fresh] by simp
  have s1: "step env ?c0 (Request t1) = (?c1, Some ?A)"
    using assms(6) by (simp add: stale_iff)
  have s2: "step env ?c1 (Completion b b' d) = (?c2, None)"
    by (simp add: getStaticProps_result [OF assms(10)] js_get_def)
  obtain c3 where s3: "step env ?c2 (Request u) = (c3, Some ?B)"
    by (cases "stale ?c2 u") simp_all
  have r2: "run env ?c0 (map Request ts @ [Request t1]) = (?c1, replicate (length ts) ?A @ [?A])"
    by (simp add: run_append r1 s1 del: step.simps)
  have r3: "run env ?c0 (map Request ts @ [Request t1, Completion b b' d, Request u])
      = (c3, replicate (length ts) ?A @ [?A, ?B])"
    by (simp add: run_append r1 s1 s2 s3 del: step.simps)
  have vb: "is_time_value b"
    using assms unfolding is_time_value_def by linarith
  have "timestamp ?A ''renderTime'' = Some a" "timestamp ?B ''renderTime'' = Some b"
    using assms(1) vb by (simp_all add: timestamp_def js_get_def Date_parse_ISOFormat)
  moreover have "a < b" using assms by linarith
  ultimately have newer: "instant_less (timestamp ?A ''renderTime'') (timestamp ?B ''renderTime'')"
    by (simp add: instant_less_def)
  show ?thesis
    using b0 r1 r2 r3 newer by (intro exI [of _ ?c0] exI [of _ c3] exI [of _ ?A] exI [of _ ?B]) simp
qed

theorem windowed_cache_scenario_witness:
  "is_time_value 0 \<and> (0::int) \<le> 0 \<and> is_time_value (0 + 10000)
   \<and> (2000::int) < 0 + 10000 \<and> (5000::int) < 0 + 10000 \<and> (9000::int) < 0 + 10000
   \<and> (0::int) + 10000 \<le> 11000 \<and> (11000::int) \<le> 11010 \<and> (11010::int) \<le> 11011
   \<and> (11011::int) \<le> 11050 \<and> is_time_value (11011 + 10000)
   \<and> (\<exists>c0 c3 A B.
         build Map.empty 0 0 0 = Inr c0 \<and> snapshot c0 = A \<and> revalidate c0 = JNumber 10
       \<and> run Map.empty c0 (map Request [2000, 5000, 9000]) = (c0, replicate 3 A)
       \<and> run Map.empty c0 (map Request [2000, 5000, 9000] @ [Request 11000])
           = (c0\<lparr>inFlight := True, regenerations := 1\<rparr>, replicate 3 A @ [A])
       \<and> run Map.empty c0
            (map Request [2000, 5000, 9000]
               @ [Request 11000, Completion 11010 11011 11050, Request 12000])
           = (c3, replicate 3 A @ [A, B])
       \<and> instant_less (timestamp A ''renderTime'') (timestamp B ''renderTime''))"
proof -
  have h: "is_time_value 0" "(0::int) \<le> 0" "(0::int) \<le> 0" "is_time_value (0 + 10000)"
    "\<forall>t\<in>set [2000, 5000, 9000 :: int]. t < 0 + 10000"
    "(0::int) + 10000 \<le> 11000" "(11000::int) \<le> 11010" "(11010::int) \<le> 11011"
    "(11011::int) \<le> 11050" "is_time_value (11011 + 10000)"
    by (simp_all add: is_time_value_def)
  from windowed_cache_scenario [OF h, of Map.empty 12000] h show ?thesis
    by (simp add: numeral_3_eq_3 del: run.simps step.simps)
qed

text \<open>
  C8. Requests that reach the cache while its snapshot is Stale and no regeneration has
  completed start exactly one regeneration between them, however many they are, and each of
  them is answered with the snapshot that was cached.
\<close>

theorem single_flight:
  assumes "ts \<noteq> []" and "\<forall>t\<in>set ts. stale c t"
  shows "(\<not> inFlight c \<longrightarrow>
            run env c (map Request ts) =
              (c\<lparr>inFlight := True, regenerations := Suc (regenerations c)\<rparr>,
               replicate (length ts) (snapshot c)))
     \<and> (inFlight c \<longrightarrow>
            run env c (map Request ts) = (c, replicate (length ts) (snapshot c)))"
  using assms by (simp add: run_requests_stale run_requests_unchanged)

theorem single_flight_witness:
  "[11000, 11000, 11000 :: int] \<noteq> []
   \<and> stale \<lparr>snapshot = JObject [(''renderTime'', JString ''1970-01-01T00:00:00.000Z'')],
             revalidate = JNumber 10, producedAt = 1000, inFlight = False,
             regenerations = 0\<rparr> 11000
   \<and> run Map.empty
        \<lparr>snapshot = JObject [(''renderTime'', JString ''1970-01-01T00:00:00.000Z'')],
         revalidate = JNumber 10, producedAt = 1000, inFlight = False, regenerations = 0\<rparr>
        (map Request [11000, 11000, 11000])
      = (\<lparr>snapshot = JObject [(''renderTime'', JString ''1970-01-01T00:00:00.000Z'')],
          revalidate = JNumber 10, producedAt = 1000, inFlight = True, regenerations = 1\<rparr>,
         replicate 3 (JObject [(''renderTime'', JString ''1970-01-01T00:00:00.000Z'')]))"
  using single_flight [of "[11000, 11000, 11000]"
      "\<lparr>snapshot = JObject [(''renderTime'', JString ''1970-01-01T00:00:00.000Z'')],
        revalidate = JNumber 10, producedAt = 1000, inFlight = False, regenerations = 0\<rparr>"
      Map.empty]
  by (simp add: stale_def window_ms_def numeral_3_eq_3)

text \<open>
  C9, up to the method being \<open>HEAD\<close>. The listener of \<open>hello.js\<close> never reads the request:
  run on one response object it does the same for any two requests. The response to a request
  depends on the request only through whether its method is \<open>HEAD\<close>: the status and the
  headers set on the response are the same for any two requests, and two requests that are
  both \<open>HEAD\<close> or both not \<open>HEAD\<close> get the same response, body included.
\<close>

theorem hello_response_independent:
  "requestListener req1 res = requestListener req2 res
   \<and> (\<exists>r1 r2. serve hello req1 = Inr r1 \<and> serve hello req2 = Inr r2
         \<and> statusCode r1 = statusCode r2 \<and> headers r1 = headers r2)
   \<and> ((req_method req1 = ''HEAD'') = (req_method req2 = ''HEAD'') \<longrightarrow>
         serve hello req1 = serve hello req2)"
  by (auto simp: serve_def hello_def listen_def createServer_def requestListener_def
      writeHead_def res_end_def ServerResponse_def split: option.split)

theorem hello_response_independent_witness:
  "((req_method \<lparr>req_method = ''GET'', req_url = ''/'', req_headers = [], req_body = []\<rparr>
       = ''HEAD'')
     = (req_method \<lparr>req_method = ''POST'', req_url = ''/submit?x=1'',
                     req_headers = [(''content-type'', ''text/plain'')],
                     req_body = ''hello''\<rparr> = ''HEAD''))
   \<and> serve hello \<lparr>req_method = ''GET'', req_url = ''/'', req_headers = [], req_body = []\<rparr>
     = serve hello \<lparr>req_method = ''POST'', req_url = ''/submit?x=1'',
                     req_headers = [(''content-type'', ''text/plain'')], req_body = ''hello''\<rparr>"
  using hello_response_independent
    [of "\<lparr>req_method = ''GET'', req_url = ''/'', req_headers = [], req_body = []\<rparr>"
        res
        "\<lparr>req_method = ''POST'', req_url = ''/submit?x=1'',
          req_headers = [(''content-type'', ''text/plain'')], req_body = ''hello''\<rparr>"]
  by simp

text \<open>
  C9 as it stands fails on a \<open>GET\<close> and a \<open>HEAD\<close> request for the same path: the first
  response carries the JSON text, the second no body.
\<close>

theorem hello_response_any_two_requests_counterexample:
  "serve hello \<lparr>req_method = ''GET'', req_url = ''/'', req_headers = [], req_body = []\<rparr>
     \<noteq> serve hello \<lparr>req_method = ''HEAD'', req_url = ''/'', req_headers = [], req_body = []\<rparr>
   \<and> body (projr (serve hello
          \<lparr>req_method = ''GET'', req_url = ''/'', req_headers = [], req_body = []\<rparr>))
       \<noteq> body (projr (serve hello
          \<lparr>req_method = ''HEAD'', req_url = ''/'', req_headers = [], req_body = []\<rparr>))"
  by (simp add: serve_def hello_def listen_def createServer_def requestListener_def
      writeHead_def res_end_def ServerResponse_def QuoteJSONString_def)

text \<open>
  C10. Both generation functions put the fallback string in \<open>hostname\<close> whenever \<open>HOSTNAME\<close>
  is falsy, that is, not set or set to the empty string, and the \<open>hostname\<close> they return is
  always a string that is not empty (\<open>getStaticProps\<close> resolving whenever the instant ten
  seconds after its clock reading is a time value).
\<close>

theorem hostname_fallback_when_falsy:
  "(\<exists>r h. getServerSideProps t env = Inr r
        \<and> js_get (js_get r ''props'') ''hostname'' = JString h \<and> h \<noteq> []
        \<and> (env ''HOSTNAME'' = None \<or> env ''HOSTNAME'' = Some [] \<longrightarrow>
             h = ''Not set (check your platform configuration)''))
   \<and> (is_time_value (now' + 10000) \<longrightarrow>
        (\<exists>r h. getStaticProps now now' env = Inr r
          \<and> js_get (js_get r ''props'') ''hostname'' = JString h \<and> h \<noteq> []
          \<and> (env ''HOSTNAME'' = None \<or> env ''HOSTNAME'' = Some [] \<longrightarrow>
               h = ''Not set (check your platform configuration)'')))"
  by (auto simp: getStaticProps_result getServerSideProps_result hostname_cases js_get_def
      fallback_def split: option.split)

theorem hostname_fallback_when_falsy_witness:
  "[''HOSTNAME'' \<mapsto> []] ''HOSTNAME'' = Some []
   \<and> is_time_value (1762166400123 + 10000)
   \<and> (\<exists>r. getServerSideProps 1762166400000 [''HOSTNAME'' \<mapsto> []] = Inr r
        \<and> js_get (js_get r ''props'') ''hostname''
            = JString ''Not set (check your platform configuration)'')
   \<and> (\<exists>r. getStaticProps 1762166400000 1762166400123 [''HOSTNAME'' \<mapsto> []] = Inr r
        \<and> js_get (js_get r ''props'') ''hostname''
            = JString ''Not set (check your platform configuration)'')"
  using hostname_fallback_when_falsy
    [of 1762166400000 "[''HOSTNAME'' \<mapsto> []]" 1762166400123 1762166400000]
  by (auto simp: is_time_value_def)

end
